theory Spec2Isabelle
  imports Main
begin

section \<open>Failures\<close>

text \<open>
  Every way in which a call of the modelled code can fail to return is a value of
  \<open>error\<close>; a member function returns \<open>error + 'r\<close>, with \<open>Inl\<close> for the failure.
\<close>

datatype error =
    ContractViolation string
  | IndexOutOfRange
  | NullDereference
  | OperatorFailure string

text \<open>
  Modelled from the spec: the macro \<open>GISMO_ASSERT(cond, message)\<close>, which the
  library defines in its debugging header, outside the files covered here. The spec
  describes a failed assertion as a fatal contract violation (assert-style) that is
  reported and not recoverable: the function does not go on to its \<open>return\<close>
  statement. A true condition lets the function continue.
\<close>

definition GISMO_ASSERT :: "bool \<Rightarrow> string \<Rightarrow> (error + 'r) \<Rightarrow> error + 'r" where
  "GISMO_ASSERT cond message continue =
     (if cond then continue else Inl (ContractViolation message))"

section \<open>The preconditioner interface\<close>

text \<open>
  \<open>gsPreconditionerOp<T>\<close> is an abstract class; the composition calls five of its
  virtual member functions. An object of the class is the record of these functions.
  \<open>'v\<close> is \<open>gsMatrix<T>\<close>, \<open>'a\<close> is \<open>gsLinearOperator<T>::Ptr\<close>.
  \<open>step\<close> and \<open>stepT\<close> receive \<open>f\<close> by reference to const and \<open>x\<close> by reference:
  they read both and write \<open>x\<close>, so each is a function of \<open>f\<close> and \<open>x\<close> to the new
  \<open>x\<close>. Any of the five may fail: the composition below is itself such an object, and
  its own \<open>rows\<close> does.
\<close>

record ('v, 'a) gsPreconditionerOp =
  op_step :: "'v \<Rightarrow> 'v \<Rightarrow> error + 'v"
  op_stepT :: "'v \<Rightarrow> 'v \<Rightarrow> error + 'v"
  op_underlyingOp :: "error + 'a"
  op_rows :: "error + int"
  op_cols :: "error + int"

text \<open>\<open>BasePtr\<close> is a shared pointer; \<open>None\<close> is the empty pointer.\<close>

type_synonym ('v, 'a) BasePtr = "('v, 'a) gsPreconditionerOp option"

section \<open>The composition of preconditioners\<close>

text \<open>
  The two private fields. \<open>index_t\<close> is the library's signed index type, declared in
  a configuration header outside the files covered here; it is taken as \<open>int\<close>, every
  size being within its range.
\<close>

record ('v, 'a) gsCompositionOfPreconditionersOp =
  m_sz :: int
  m_ops :: "('v, 'a) BasePtr list"

text \<open>
  The values of the two vectors a call of \<open>step\<close> or \<open>stepT\<close> refers to, \<open>f\<close> and
  \<open>x\<close> being two objects. The calls on the caller's objects themselves, where \<open>f\<close> and
  \<open>x\<close> may be one object, follow further down.
\<close>

record 'v step_args =
  arg_f :: 'v
  arg_x :: 'v

subsection \<open>Constructors\<close>

text \<open>The empty constructor: \<open>m_sz(0), m_ops()\<close>.\<close>

definition gsCompositionOfPreconditionersOp_0 ::
  "('v, 'a) gsCompositionOfPreconditionersOp" where
  "gsCompositionOfPreconditionersOp_0 = \<lparr>m_sz = 0, m_ops = []\<rparr>"

text \<open>From a vector: \<open>m_sz(ops.size()), m_ops(ops)\<close>.\<close>

definition gsCompositionOfPreconditionersOp_vec ::
  "('v, 'a) BasePtr list \<Rightarrow> ('v, 'a) gsCompositionOfPreconditionersOp" where
  "gsCompositionOfPreconditionersOp_vec ops = \<lparr>m_sz = int (length ops), m_ops = ops\<rparr>"

text \<open>
  From two preconditioners: \<open>m_sz(2), m_ops(2)\<close> makes a vector of two empty pointers,
  and the body assigns \<open>m_ops[0] = op0; m_ops[1] = op1\<close>.
\<close>

definition gsCompositionOfPreconditionersOp_2 ::
  "('v, 'a) BasePtr \<Rightarrow> ('v, 'a) BasePtr \<Rightarrow> ('v, 'a) gsCompositionOfPreconditionersOp" where
  "gsCompositionOfPreconditionersOp_2 op0 op1 =
     \<lparr>m_sz = 2, m_ops = (replicate 2 None)[0 := op0, 1 := op1]\<rparr>"

text \<open>From three preconditioners: \<open>m_sz(3), m_ops(3)\<close>, then three assignments.\<close>

definition gsCompositionOfPreconditionersOp_3 ::
  "('v, 'a) BasePtr \<Rightarrow> ('v, 'a) BasePtr \<Rightarrow> ('v, 'a) BasePtr \<Rightarrow>
   ('v, 'a) gsCompositionOfPreconditionersOp" where
  "gsCompositionOfPreconditionersOp_3 op0 op1 op2 =
     \<lparr>m_sz = 3, m_ops = (replicate 3 None)[0 := op0, 1 := op1, 2 := op2]\<rparr>"

subsection \<open>addOperator\<close>

text \<open>\<open>m_sz++; m_ops.push_back(op);\<close>\<close>

definition addOperator ::
  "('v, 'a) gsCompositionOfPreconditionersOp \<Rightarrow> ('v, 'a) BasePtr \<Rightarrow>
   ('v, 'a) gsCompositionOfPreconditionersOp" where
  "addOperator c op = c\<lparr>m_sz := m_sz c + 1, m_ops := m_ops c @ [op]\<rparr>"

subsection \<open>Reaching an element\<close>

text \<open>
  \<open>m_ops[i]->\<close>: the vector is indexed without a range check and the pointer is
  dereferenced without a test. An index outside the vector and an empty pointer have no
  defined behaviour in the source; the model makes each a failure of its own.
\<close>

definition m_ops_at ::
  "('v, 'a) gsCompositionOfPreconditionersOp \<Rightarrow> int \<Rightarrow> error + ('v, 'a) gsPreconditionerOp" where
  "m_ops_at c i =
     (if 0 \<le> i \<and> i < int (length (m_ops c)) then
        (case m_ops c ! nat i of
           None \<Rightarrow> Inl NullDereference
         | Some p \<Rightarrow> Inr p)
      else Inl IndexOutOfRange)"

subsection \<open>step and stepT\<close>

text \<open>
  \<open>for ( index_t i=0; i<m_sz; ++i ) m_ops[i]->step(f,x);\<close>
  The loop from the index \<open>i\<close> on. A failing call ends it.
\<close>

function step_loop ::
  "('v, 'a) gsCompositionOfPreconditionersOp \<Rightarrow> int \<Rightarrow> 'v step_args \<Rightarrow> error + 'v step_args" where
  "step_loop c i s =
     (if i < m_sz c then
        (case m_ops_at c i of
           Inl e \<Rightarrow> Inl e
         | Inr p \<Rightarrow>
             (case op_step p (arg_f s) (arg_x s) of
                Inl e \<Rightarrow> Inl e
              | Inr x' \<Rightarrow> step_loop c (i + 1) (s\<lparr>arg_x := x'\<rparr>)))
      else Inr s)"
  by pat_completeness auto
termination
  by (relation "measure (\<lambda>(c, i, s). nat (m_sz c - i))") auto

definition step ::
  "('v, 'a) gsCompositionOfPreconditionersOp \<Rightarrow> 'v step_args \<Rightarrow> error + 'v step_args" where
  "step c s = step_loop c 0 s"

text \<open>
  \<open>for ( index_t i=m_sz-1; i>=0; --i ) m_ops[i]->stepT(f,x);\<close>
\<close>

function stepT_loop ::
  "('v, 'a) gsCompositionOfPreconditionersOp \<Rightarrow> int \<Rightarrow> 'v step_args \<Rightarrow> error + 'v step_args" where
  "stepT_loop c i s =
     (if i \<ge> 0 then
        (case m_ops_at c i of
           Inl e \<Rightarrow> Inl e
         | Inr p \<Rightarrow>
             (case op_stepT p (arg_f s) (arg_x s) of
                Inl e \<Rightarrow> Inl e
              | Inr x' \<Rightarrow> stepT_loop c (i - 1) (s\<lparr>arg_x := x'\<rparr>)))
      else Inr s)"
  by pat_completeness auto
termination
  by (relation "measure (\<lambda>(c, i, s). nat (i + 1))") auto

definition stepT ::
  "('v, 'a) gsCompositionOfPreconditionersOp \<Rightarrow> 'v step_args \<Rightarrow> error + 'v step_args" where
  "stepT c s = stepT_loop c (m_sz c - 1) s"

subsection \<open>underlyingOp, rows, cols\<close>

text \<open>
  Each asserts \<open>m_sz>0\<close> and returns what element 0 returns. The message of \<open>cols\<close>
  names \<open>rows\<close>, as the source has it.
\<close>

definition underlyingOp :: "('v, 'a) gsCompositionOfPreconditionersOp \<Rightarrow> error + 'a" where
  "underlyingOp c =
     GISMO_ASSERT (m_sz c > 0)
       ''gsCompositionOfPreconditionersOp::underlyingOp does not work for 0 operators.''
       (case m_ops_at c 0 of Inl e \<Rightarrow> Inl e | Inr p \<Rightarrow> op_underlyingOp p)"

definition rows :: "('v, 'a) gsCompositionOfPreconditionersOp \<Rightarrow> error + int" where
  "rows c =
     GISMO_ASSERT (m_sz c > 0)
       ''gsCompositionOfPreconditionersOp::rows does not work for 0 operators.''
       (case m_ops_at c 0 of Inl e \<Rightarrow> Inl e | Inr p \<Rightarrow> op_rows p)"

definition cols :: "('v, 'a) gsCompositionOfPreconditionersOp \<Rightarrow> error + int" where
  "cols c =
     GISMO_ASSERT (m_sz c > 0)
       ''gsCompositionOfPreconditionersOp::rows does not work for 0 operators.''
       (case m_ops_at c 0 of Inl e \<Rightarrow> Inl e | Inr p \<Rightarrow> op_cols p)"

subsection \<open>step and stepT on the caller's objects\<close>

text \<open>
  \<open>step(const gsMatrix<T>& f, gsMatrix<T>& x)\<close> takes two references, and nothing keeps a
  caller from passing one matrix for both. The caller's matrices are a store, addressed
  by numbers; \<open>f\<close> and \<open>x\<close> are addresses. A constituent reads the matrix at \<open>f\<close> and
  the matrix at \<open>x\<close> and then writes its result to the matrix at \<open>x\<close>; through the
  reference to const it writes nothing at \<open>f\<close>.
\<close>

type_synonym 'v objects = "nat \<Rightarrow> 'v"

text \<open>
  A call returns, or it fails. After a failure \<open>objects_after\<close> are the matrices as the
  failing constituent found them; what that constituent wrote to the matrix at \<open>x\<close>
  before it failed is not known.
\<close>

datatype 'v outcome =
    returned: Returned (objects_after: "'v objects")
  | Failed (failure: error) (objects_after: "'v objects")

text \<open>
  \<open>for ( index_t i=0; i<m_sz; ++i ) m_ops[i]->step(f,x);\<close>
\<close>

function step_ref_loop ::
  "('v, 'a) gsCompositionOfPreconditionersOp \<Rightarrow> int \<Rightarrow> nat \<Rightarrow> nat \<Rightarrow> 'v objects \<Rightarrow> 'v outcome" where
  "step_ref_loop c i f x h =
     (if i < m_sz c then
        (case m_ops_at c i of
           Inl e \<Rightarrow> Failed e h
         | Inr p \<Rightarrow>
             (case op_step p (h f) (h x) of
                Inl e \<Rightarrow> Failed e h
              | Inr x' \<Rightarrow> step_ref_loop c (i + 1) f x (h(x := x'))))
      else Returned h)"
  by pat_completeness auto
termination
  by (relation "measure (\<lambda>(c, i, f, x, h). nat (m_sz c - i))") auto

definition step_ref ::
  "('v, 'a) gsCompositionOfPreconditionersOp \<Rightarrow> nat \<Rightarrow> nat \<Rightarrow> 'v objects \<Rightarrow> 'v outcome" where
  "step_ref c f x h = step_ref_loop c 0 f x h"

text \<open>
  \<open>for ( index_t i=m_sz-1; i>=0; --i ) m_ops[i]->stepT(f,x);\<close>
\<close>

function stepT_ref_loop ::
  "('v, 'a) gsCompositionOfPreconditionersOp \<Rightarrow> int \<Rightarrow> nat \<Rightarrow> nat \<Rightarrow> 'v objects \<Rightarrow> 'v outcome" where
  "stepT_ref_loop c i f x h =
     (if i \<ge> 0 then
        (case m_ops_at c i of
           Inl e \<Rightarrow> Failed e h
         | Inr p \<Rightarrow>
             (case op_stepT p (h f) (h x) of
                Inl e \<Rightarrow> Failed e h
              | Inr x' \<Rightarrow> stepT_ref_loop c (i - 1) f x (h(x := x'))))
      else Returned h)"
  by pat_completeness auto
termination
  by (relation "measure (\<lambda>(c, i, f, x, h). nat (i + 1))") auto

definition stepT_ref ::
  "('v, 'a) gsCompositionOfPreconditionersOp \<Rightarrow> nat \<Rightarrow> nat \<Rightarrow> 'v objects \<Rightarrow> 'v outcome" where
  "stepT_ref c f x h = stepT_ref_loop c (m_sz c - 1) f x h"

subsection \<open>Which calls change the object\<close>

text \<open>
  The public member functions of the class. Only \<open>addOperator\<close> is not declared
  \<open>const\<close>; the class has no \<open>mutable\<close> field.
\<close>

datatype ('v, 'a) member_call =
    Call_addOperator "('v, 'a) BasePtr"
  | Call_step "'v step_args"
  | Call_stepT "'v step_args"
  | Call_underlyingOp
  | Call_rows
  | Call_cols

text \<open>The object as a call leaves it.\<close>

fun object_after ::
  "('v, 'a) member_call \<Rightarrow> ('v, 'a) gsCompositionOfPreconditionersOp \<Rightarrow>
   ('v, 'a) gsCompositionOfPreconditionersOp" where
  "object_after (Call_addOperator op) c = addOperator c op"
| "object_after (Call_step s) c = c"
| "object_after (Call_stepT s) c = c"
| "object_after Call_underlyingOp c = c"
| "object_after Call_rows c = c"
| "object_after Call_cols c = c"

subsection \<open>The invariant and the order of the calls, as the specification words them\<close>

text \<open>The size \<open>m_sz\<close> is the number of stored operators.\<close>

definition size_invariant :: "('v, 'a) gsCompositionOfPreconditionersOp \<Rightarrow> bool" where
  "size_invariant c \<longleftrightarrow> m_sz c = int (length (m_ops c))"

text \<open>
  A sequence of calls on the vectors of \<open>s\<close>: every call receives the same \<open>f\<close> and
  the \<open>x\<close> that the call before it left; the first failure is the result.
\<close>

fun calls :: "('v \<Rightarrow> 'v \<Rightarrow> error + 'v) list \<Rightarrow> 'v step_args \<Rightarrow> error + 'v step_args" where
  "calls [] s = Inr s"
| "calls (g # gs) s =
     (case g (arg_f s) (arg_x s) of
        Inl e \<Rightarrow> Inl e
      | Inr x' \<Rightarrow> calls gs (s\<lparr>arg_x := x'\<rparr>))"

text \<open>
  The specification of \<open>step\<close>: for \<open>i\<close> from \<open>0\<close> to \<open>n-1\<close>, ascending, call the
  \<open>step\<close> of operator \<open>i\<close>.
\<close>

definition spec_step ::
  "('v, 'a) gsPreconditionerOp list \<Rightarrow> 'v step_args \<Rightarrow> error + 'v step_args" where
  "spec_step ops s = calls (map (\<lambda>i. op_step (ops ! i)) [0..<length ops]) s"

text \<open>
  The specification of \<open>stepT\<close>: for \<open>i\<close> from \<open>n-1\<close> to \<open>0\<close>, descending, call the
  \<open>stepT\<close> of operator \<open>i\<close>.
\<close>

definition spec_stepT ::
  "('v, 'a) gsPreconditionerOp list \<Rightarrow> 'v step_args \<Rightarrow> error + 'v step_args" where
  "spec_stepT ops s = calls (map (\<lambda>i. op_stepT (ops ! i)) (rev [0..<length ops])) s"

subsection \<open>Sample preconditioners\<close>

text \<open>
  A preconditioner on systems with one unknown over the integers: \<open>step\<close> replaces \<open>x\<close>
  by \<open>m * x + b * f\<close> and \<open>stepT\<close> by \<open>mT * x + bT * f\<close>. Two of them do not commute
  in general, which makes the order of the calls visible.
\<close>

definition example_op :: "int \<Rightarrow> int \<Rightarrow> int \<Rightarrow> int \<Rightarrow> (int, int) gsPreconditionerOp" where
  "example_op m b mT bT =
     \<lparr>op_step = (\<lambda>f x. Inr (m * x + b * f)),
      op_stepT = (\<lambda>f x. Inr (mT * x + bT * f)),
      op_underlyingOp = Inr 1,
      op_rows = Inr 1,
      op_cols = Inr 1\<rparr>"

text \<open>The same with chosen answers to \<open>underlyingOp\<close>, \<open>rows\<close> and \<open>cols\<close>.\<close>

definition sized_op :: "int \<Rightarrow> int \<Rightarrow> int \<Rightarrow> (int, int) gsPreconditionerOp" where
  "sized_op a r k = (example_op 1 0 1 0)\<lparr>op_underlyingOp := Inr a, op_rows := Inr r, op_cols := Inr k\<rparr>"


text \<open>The caller's matrices: the one at address \<open>0\<close> is \<open>1\<close>, every other is \<open>0\<close>.\<close>

definition example_objects :: "int objects" where
  "example_objects a = (if a = 0 then 1 else 0)"

section \<open>The single-patch preconditioners: construction\<close>

text \<open>
  Modelled from the spec: the enumeration \<open>dirichlet::strategy\<close>, declared with the
  boundary conditions, outside the files covered here. The spec gives its values as
  elimination, Nitsche and penalty.
\<close>

datatype dirichlet_strategy = elimination | nitsche | penalty

text \<open>
  Modelled from the spec: the class \<open>gsOptionList\<close>, declared outside the files covered
  here. The spec describes it as a configuration record of recognised keys with
  entries; an entry is an integer, as the one of the key \<open>DirichletStrategy\<close>, or of
  some other kind \<open>'o\<close>.
\<close>

datatype 'o option_entry = IntEntry int | OtherEntry 'o

type_synonym 'o gsOptionList = "string \<rightharpoonup> 'o option_entry"

text \<open>
  Modelled from the spec: the member function \<open>gsOptionList::setInt(label, value)\<close>,
  defined outside the files covered here. After the construction from a strategy the
  spec has the Dirichlet strategy as given and the remaining options defaulted: the call
  sets the entry of the label and leaves every other entry.
\<close>

definition setInt :: "'o gsOptionList \<Rightarrow> string \<Rightarrow> int \<Rightarrow> 'o gsOptionList" where
  "setInt opts label v = opts(label \<mapsto> IntEntry v)"

text \<open>The three fields; \<open>'b\<close> is the basis, \<open>'c\<close> the boundary conditions.\<close>

record ('b, 'c, 'o) gsSinglePatchPreconditioners =
  m_basis :: 'b
  m_bc :: 'c
  m_options :: "'o gsOptionList"

text \<open>
  The constructor taking a strategy:
  \<open>m_options(gsGenericAssembler<T>::defaultOptions())\<close>, then
  \<open>m_options.setInt("DirichletStrategy", (index_t) _dirichlet)\<close>.
  The default option set of the generic assembler and the numbering of the enumeration
  that the cast to \<open>index_t\<close> reads are declared outside the files covered here and are
  parameters. The argument
  \<open>_dirichlet\<close> has the default value \<open>dirichlet::elimination\<close>; \<open>None\<close> is the call
  that omits it.
\<close>

definition gsSinglePatchPreconditioners_strategy ::
  "'o gsOptionList \<Rightarrow> (dirichlet_strategy \<Rightarrow> int) \<Rightarrow> 'b \<Rightarrow> 'c \<Rightarrow> dirichlet_strategy option \<Rightarrow>
   ('b, 'c, 'o) gsSinglePatchPreconditioners" where
  "gsSinglePatchPreconditioners_strategy defaultOptions index_t basis bc dirichlet =
     \<lparr>m_basis = basis, m_bc = bc,
      m_options = setInt defaultOptions ''DirichletStrategy''
        (index_t (case dirichlet of None \<Rightarrow> elimination | Some d \<Rightarrow> d))\<rparr>"

text \<open>The constructor taking an option list: \<open>m_options(_opt)\<close>.\<close>

definition gsSinglePatchPreconditioners_options ::
  "'b \<Rightarrow> 'c \<Rightarrow> 'o gsOptionList \<Rightarrow> ('b, 'c, 'o) gsSinglePatchPreconditioners" where
  "gsSinglePatchPreconditioners_options basis bc opt =
     \<lparr>m_basis = basis, m_bc = bc, m_options = opt\<rparr>"

text \<open>A sample default option set and a sample numbering of the strategies.\<close>

definition example_defaultOptions :: "bool gsOptionList" where
  "example_defaultOptions =
     [''DirichletStrategy'' \<mapsto> IntEntry 0, ''quB'' \<mapsto> IntEntry 1, ''flipSide'' \<mapsto> OtherEntry False]"

fun example_index :: "dirichlet_strategy \<Rightarrow> int" where
  "example_index elimination = 11"
| "example_index nitsche = 12"
| "example_index penalty = 13"

section \<open>Properties of the composition\<close>

declare step_loop.simps [simp del] stepT_loop.simps [simp del]

declare step_ref_loop.simps [simp del] stepT_ref_loop.simps [simp del]

subsection \<open>The loops as sequences of calls\<close>

lemma calls_append:
  "calls (gs @ hs) s = (case calls gs s of Inl e \<Rightarrow> Inl e | Inr s' \<Rightarrow> calls hs s')"
  by (induction gs arbitrary: s) (auto split: sum.splits)

lemma m_ops_at_Some:
  "m_ops c = map Some ps \<Longrightarrow> i < length ps \<Longrightarrow> m_ops_at c (int i) = Inr (ps ! i)"
  by (simp add: m_ops_at_def)

lemma step_loop_drop:
  "m_sz c = int (length ps) \<Longrightarrow> m_ops c = map Some ps \<Longrightarrow> i \<le> length ps \<Longrightarrow>
   step_loop c (int i) s = calls (map op_step (drop i ps)) s"
proof (induction "length ps - i" arbitrary: i s)
  case 0
  then show ?case by (subst step_loop.simps) simp
next
  case (Suc k)
  then have lt: "i < length ps" by simp
  have d: "drop i ps = ps ! i # drop (Suc i) ps"
    using lt by (simp add: Cons_nth_drop_Suc)
  have at: "m_ops_at c (int i) = Inr (ps ! i)"
    using Suc.prems(2) lt by (rule m_ops_at_Some)
  have "step_loop c (int (Suc i)) s' = calls (map op_step (drop (Suc i) ps)) s'" for s'
    using Suc.hyps Suc.prems lt by (intro Suc.hyps(1)) auto
  then have nxt: "step_loop c (int i + 1) s' = calls (map op_step (drop (Suc i) ps)) s'" for s'
    by (simp add: add.commute)
  show ?case
    using lt Suc.prems(1)
    by (subst step_loop.simps) (simp add: at nxt d split: sum.splits)
qed

lemma stepT_loop_take:
  "m_ops c = map Some ps \<Longrightarrow> n \<le> length ps \<Longrightarrow>
   stepT_loop c (int n - 1) s = calls (rev (map op_stepT (take n ps))) s"
proof (induction n arbitrary: s)
  case 0
  then show ?case by (subst stepT_loop.simps) simp
next
  case (Suc n)
  then have lt: "n < length ps" by simp
  have t: "take (Suc n) ps = take n ps @ [ps ! n]"
    using lt by (simp add: take_Suc_conv_app_nth)
  have at: "m_ops_at c (int n) = Inr (ps ! n)"
    using Suc.prems(1) lt by (rule m_ops_at_Some)
  have prv: "\<And>s'. stepT_loop c (int n - 1) s' = calls (rev (map op_stepT (take n ps))) s'"
    using Suc by simp
  show ?case
    by (subst stepT_loop.simps) (simp add: at prv t calls_append split: sum.splits)
qed

lemma step_calls:
  assumes "size_invariant c" and "m_ops c = map Some ps"
  shows "step c s = calls (map op_step ps) s"
proof -
  have "m_sz c = int (length ps)"
    using assms by (simp add: size_invariant_def)
  then have "step_loop c (int 0) s = calls (map op_step (drop 0 ps)) s"
    using assms(2) by (intro step_loop_drop) simp_all
  then show ?thesis by (simp add: step_def)
qed

lemma stepT_calls:
  assumes "size_invariant c" and "m_ops c = map Some ps"
  shows "stepT c s = calls (rev (map op_stepT ps)) s"
proof -
  have sz: "m_sz c = int (length ps)"
    using assms by (simp add: size_invariant_def)
  have "stepT_loop c (int (length ps) - 1) s = calls (rev (map op_stepT (take (length ps) ps))) s"
    using assms(2) by (intro stepT_loop_take) simp_all
  then show ?thesis by (simp add: stepT_def sz)
qed

lemma map_by_index: "map (\<lambda>i. g (xs ! i)) [0..<length xs] = map g xs"
  by (rule nth_equalityI) simp_all

lemma spec_step_calls: "spec_step ps s = calls (map op_step ps) s"
  by (simp add: spec_step_def map_by_index)

lemma spec_stepT_calls: "spec_stepT ps s = calls (rev (map op_stepT ps)) s"
  by (simp add: spec_stepT_def map_by_index rev_map [symmetric])

lemma ctor_2_fields:
  "m_sz (gsCompositionOfPreconditionersOp_2 op0 op1) = 2"
  "m_ops (gsCompositionOfPreconditionersOp_2 op0 op1) = [op0, op1]"
  by (simp_all add: gsCompositionOfPreconditionersOp_2_def numeral_2_eq_2)

lemma ctor_3_fields:
  "m_sz (gsCompositionOfPreconditionersOp_3 op0 op1 op2) = 3"
  "m_ops (gsCompositionOfPreconditionersOp_3 op0 op1 op2) = [op0, op1, op2]"
  by (simp_all add: gsCompositionOfPreconditionersOp_3_def numeral_3_eq_3)

subsection \<open>Order of the calls\<close>

text \<open>
  C1. For a composition of the preconditioners \<open>P_0 .. P_{n-1}\<close>, \<open>stepT(f, x)\<close> calls
  the \<open>stepT\<close> of the constituents in strictly descending index order, from \<open>n-1\<close>
  down to \<open>0\<close>, each on the same \<open>f\<close> and on the \<open>x\<close> left by the call before. In
  particular, the \<open>stepT\<close> of the composition of \<open>P1\<close> and \<open>P2\<close> is the \<open>stepT\<close> of
  \<open>P1\<close> after the \<open>stepT\<close> of \<open>P2\<close>.
\<close>

theorem stepT_descending_order:
  "(size_invariant c \<and> m_ops c = map Some ps \<longrightarrow> stepT c s = spec_stepT ps s) \<and>
   stepT (gsCompositionOfPreconditionersOp_2 (Some P1) (Some P2)) s =
     (case op_stepT P2 (arg_f s) (arg_x s) of
        Inl e \<Rightarrow> Inl e
      | Inr x2 \<Rightarrow>
          (case op_stepT P1 (arg_f s) x2 of
             Inl e \<Rightarrow> Inl e
           | Inr x1 \<Rightarrow> Inr (s\<lparr>arg_x := x1\<rparr>)))"
proof
  show "size_invariant c \<and> m_ops c = map Some ps \<longrightarrow> stepT c s = spec_stepT ps s"
    by (simp add: stepT_calls spec_stepT_calls)
next
  let ?c = "gsCompositionOfPreconditionersOp_2 (Some P1) (Some P2)"
  have "size_invariant ?c" and "m_ops ?c = map Some [P1, P2]"
    by (simp_all add: size_invariant_def ctor_2_fields)
  then have "stepT ?c s = calls (rev (map op_stepT [P1, P2])) s"
    by (rule stepT_calls)
  then show "stepT ?c s =
     (case op_stepT P2 (arg_f s) (arg_x s) of
        Inl e \<Rightarrow> Inl e
      | Inr x2 \<Rightarrow>
          (case op_stepT P1 (arg_f s) x2 of
             Inl e \<Rightarrow> Inl e
           | Inr x1 \<Rightarrow> Inr (s\<lparr>arg_x := x1\<rparr>)))"
    by (simp split: sum.splits)
qed

theorem stepT_descending_order_witness:
  "stepT (gsCompositionOfPreconditionersOp_vec
           [Some (example_op 1 0 2 1), Some (example_op 1 0 3 1)])
         \<lparr>arg_f = 1, arg_x = 0\<rparr>
   = Inr \<lparr>arg_f = 1, arg_x = 3\<rparr> \<and>
   stepT (gsCompositionOfPreconditionersOp_2
           (Some (example_op 1 0 2 1)) (Some (example_op 1 0 3 1)))
         \<lparr>arg_f = 1, arg_x = 0\<rparr>
   = Inr \<lparr>arg_f = 1, arg_x = 3\<rparr>"
  using stepT_descending_order
    [of "gsCompositionOfPreconditionersOp_vec
           [Some (example_op 1 0 2 1), Some (example_op 1 0 3 1)]"
        "[example_op 1 0 2 1, example_op 1 0 3 1]"
        "\<lparr>arg_f = 1, arg_x = 0\<rparr>"
        "example_op 1 0 2 1" "example_op 1 0 3 1"]
  by (simp add: size_invariant_def gsCompositionOfPreconditionersOp_vec_def spec_stepT_def
        example_op_def numeral_2_eq_2)

text \<open>
  C2. For a composition of the preconditioners \<open>P_0 .. P_{n-1}\<close>, \<open>step(f, x)\<close> calls
  the \<open>step\<close> of the constituents in strictly ascending index order, from \<open>0\<close> up to
  \<open>n-1\<close>, each call receiving the same unchanged \<open>f\<close> and the \<open>x\<close> as the call
  before left it.
\<close>

theorem step_ascending_order:
  assumes "size_invariant c" and "m_ops c = map Some ps"
  shows "step c s = spec_step ps s"
  using assms by (simp add: step_calls spec_step_calls)

theorem step_ascending_order_witness:
  "step (gsCompositionOfPreconditionersOp_vec
           [Some (example_op 2 1 1 0), Some (example_op 3 1 1 0)])
         \<lparr>arg_f = 1, arg_x = 0\<rparr>
   = Inr \<lparr>arg_f = 1, arg_x = 4\<rparr>"
  using step_ascending_order
    [of "gsCompositionOfPreconditionersOp_vec
           [Some (example_op 2 1 1 0), Some (example_op 3 1 1 0)]"
        "[example_op 2 1 1 0, example_op 3 1 1 0]"
        "\<lparr>arg_f = 1, arg_x = 0\<rparr>"]
  by (simp add: size_invariant_def gsCompositionOfPreconditionersOp_vec_def spec_step_def
        example_op_def numeral_2_eq_2)

subsection \<open>Size-dependent queries\<close>

text \<open>
  C3. On the empty composition (no operators), every call of \<open>rows()\<close>, \<open>cols()\<close> or
  \<open>underlyingOp()\<close> fails with a fatal contract violation, the same at every call; none
  of them returns a value, such as a default \<open>0\<close>.
\<close>

theorem empty_composition_queries_fail:
  assumes "size_invariant c" and "m_ops c = []"
  shows "rows c = Inl (ContractViolation
           ''gsCompositionOfPreconditionersOp::rows does not work for 0 operators.'') \<and>
         cols c = Inl (ContractViolation
           ''gsCompositionOfPreconditionersOp::rows does not work for 0 operators.'') \<and>
         underlyingOp c = Inl (ContractViolation
           ''gsCompositionOfPreconditionersOp::underlyingOp does not work for 0 operators.'') \<and>
         (\<forall>n. rows c \<noteq> Inr n) \<and> (\<forall>n. cols c \<noteq> Inr n) \<and> (\<forall>a. underlyingOp c \<noteq> Inr a)"
proof -
  have "m_sz c = 0"
    using assms by (simp add: size_invariant_def)
  then show ?thesis
    by (simp add: rows_def cols_def underlyingOp_def GISMO_ASSERT_def)
qed

theorem empty_composition_queries_fail_witness:
  "rows (gsCompositionOfPreconditionersOp_0 :: (int, int) gsCompositionOfPreconditionersOp)
     = Inl (ContractViolation
         ''gsCompositionOfPreconditionersOp::rows does not work for 0 operators.'') \<and>
   cols (gsCompositionOfPreconditionersOp_vec ([] :: (int, int) BasePtr list))
     = Inl (ContractViolation
         ''gsCompositionOfPreconditionersOp::rows does not work for 0 operators.'')"
  using empty_composition_queries_fail
      [of "gsCompositionOfPreconditionersOp_0 :: (int, int) gsCompositionOfPreconditionersOp"]
    empty_composition_queries_fail
      [of "gsCompositionOfPreconditionersOp_vec ([] :: (int, int) BasePtr list)"]
  by (simp add: size_invariant_def gsCompositionOfPreconditionersOp_0_def
        gsCompositionOfPreconditionersOp_vec_def)

lemma m_ops_at_0_Cons:
  "m_ops c = Some p # rest \<Longrightarrow> m_ops_at c 0 = Inr p"
  by (simp add: m_ops_at_def)

text \<open>
  C4. For a composition with at least one element, \<open>rows()\<close> is what \<open>rows()\<close> of
  element 0 returns, \<open>cols()\<close> what its \<open>cols()\<close> returns, and \<open>underlyingOp()\<close> what
  its \<open>underlyingOp()\<close> returns.
\<close>

theorem queries_delegate_to_element_0:
  assumes "size_invariant c" and "m_ops c = Some p # rest"
  shows "rows c = op_rows p \<and> cols c = op_cols p \<and> underlyingOp c = op_underlyingOp p"
proof -
  have "m_sz c > 0"
    using assms by (simp add: size_invariant_def)
  then show ?thesis
    using assms(2)
    by (simp add: rows_def cols_def underlyingOp_def GISMO_ASSERT_def m_ops_at_0_Cons)
qed

theorem queries_delegate_to_element_0_witness:
  "rows (gsCompositionOfPreconditionersOp_2 (Some (sized_op 7 4 5)) (Some (sized_op 8 6 9)))
     = Inr 4 \<and>
   cols (gsCompositionOfPreconditionersOp_2 (Some (sized_op 7 4 5)) (Some (sized_op 8 6 9)))
     = Inr 5 \<and>
   underlyingOp (gsCompositionOfPreconditionersOp_2 (Some (sized_op 7 4 5)) (Some (sized_op 8 6 9)))
     = Inr 7"
  using queries_delegate_to_element_0
    [of "gsCompositionOfPreconditionersOp_2 (Some (sized_op 7 4 5)) (Some (sized_op 8 6 9))"
        "sized_op 7 4 5" "[Some (sized_op 8 6 9)]"]
  by (simp add: size_invariant_def ctor_2_fields sized_op_def)

subsection \<open>Exact constituents\<close>




subsection \<open>addOperator\<close>

lemma m_ops_at_addOperator_old:
  "i < length (m_ops c) \<Longrightarrow> m_ops_at (addOperator c op) (int i) = m_ops_at c (int i)"
  by (simp add: m_ops_at_def addOperator_def nth_append)

lemma m_ops_at_addOperator_new:
  "m_ops_at (addOperator c (Some q)) (int (length (m_ops c))) = Inr q"
  by (simp add: m_ops_at_def addOperator_def)

lemma step_loop_addOperator:
  "size_invariant c \<Longrightarrow> i \<le> length (m_ops c) \<Longrightarrow>
   step_loop (addOperator c (Some q)) (int i) s =
     (case step_loop c (int i) s of Inl e \<Rightarrow> Inl e | Inr s' \<Rightarrow> calls [op_step q] s')"
proof (induction "length (m_ops c) - i" arbitrary: i s)
  case 0
  then have i: "i = length (m_ops c)" by simp
  have sz: "m_sz c = int (length (m_ops c))"
    using "0.prems" by (simp add: size_invariant_def)
  have sz': "m_sz (addOperator c (Some q)) = int (length (m_ops c)) + 1"
    using sz by (simp add: addOperator_def)
  have old: "step_loop c (int (length (m_ops c))) s = Inr s"
    by (subst step_loop.simps) (simp add: sz)
  have stop: "step_loop (addOperator c (Some q)) (int (length (m_ops c)) + 1) s' = Inr s'" for s'
    by (subst step_loop.simps) (simp add: sz')
  have "step_loop (addOperator c (Some q)) (int (length (m_ops c))) s = calls [op_step q] s"
    by (subst step_loop.simps) (simp add: sz' m_ops_at_addOperator_new stop split: sum.splits)
  then show ?case unfolding i old by simp
next
  case (Suc k)
  then have lt: "i < length (m_ops c)" by simp
  have sz: "m_sz c = int (length (m_ops c))"
    using Suc.prems by (simp add: size_invariant_def)
  have sz': "m_sz (addOperator c (Some q)) = int (length (m_ops c)) + 1"
    using sz by (simp add: addOperator_def)
  have "step_loop (addOperator c (Some q)) (int (Suc i)) s' =
      (case step_loop c (int (Suc i)) s' of Inl e \<Rightarrow> Inl e | Inr s'' \<Rightarrow> calls [op_step q] s'')" for s'
    using Suc.hyps Suc.prems lt by (intro Suc.hyps(1)) auto
  then have nxt: "step_loop (addOperator c (Some q)) (int i + 1) s' =
      (case step_loop c (int i + 1) s' of Inl e \<Rightarrow> Inl e | Inr s'' \<Rightarrow> calls [op_step q] s'')" for s'
    by (simp add: add.commute)
  have new: "step_loop (addOperator c (Some q)) (int i) s =
      (case m_ops_at c (int i) of
         Inl e \<Rightarrow> Inl e
       | Inr p \<Rightarrow>
           (case op_step p (arg_f s) (arg_x s) of
              Inl e \<Rightarrow> Inl e
            | Inr x' \<Rightarrow> step_loop (addOperator c (Some q)) (int i + 1) (s\<lparr>arg_x := x'\<rparr>)))"
    using lt by (subst step_loop.simps) (simp add: sz' m_ops_at_addOperator_old)
  have old: "step_loop c (int i) s =
      (case m_ops_at c (int i) of
         Inl e \<Rightarrow> Inl e
       | Inr p \<Rightarrow>
           (case op_step p (arg_f s) (arg_x s) of
              Inl e \<Rightarrow> Inl e
            | Inr x' \<Rightarrow> step_loop c (int i + 1) (s\<lparr>arg_x := x'\<rparr>)))"
    using lt by (subst step_loop.simps) (simp add: sz)
  show ?case
    unfolding new old by (simp add: nxt split: sum.splits)
qed

lemma stepT_loop_addOperator:
  "n \<le> length (m_ops c) \<Longrightarrow>
   stepT_loop (addOperator c op) (int n - 1) s = stepT_loop c (int n - 1) s"
proof (induction n arbitrary: s)
  case 0
  show ?case
    by (subst stepT_loop.simps, subst (2) stepT_loop.simps) simp
next
  case (Suc n)
  then have lt: "n < length (m_ops c)" by simp
  have prv: "stepT_loop (addOperator c op) (int n - 1) s' = stepT_loop c (int n - 1) s'" for s'
    using Suc by simp
  have new: "stepT_loop (addOperator c op) (int n) s =
      (case m_ops_at c (int n) of
         Inl e \<Rightarrow> Inl e
       | Inr p \<Rightarrow>
           (case op_stepT p (arg_f s) (arg_x s) of
              Inl e \<Rightarrow> Inl e
            | Inr x' \<Rightarrow> stepT_loop c (int n - 1) (s\<lparr>arg_x := x'\<rparr>)))"
    using lt by (subst stepT_loop.simps) (simp add: m_ops_at_addOperator_old prv split: sum.splits)
  have old: "stepT_loop c (int n) s =
      (case m_ops_at c (int n) of
         Inl e \<Rightarrow> Inl e
       | Inr p \<Rightarrow>
           (case op_stepT p (arg_f s) (arg_x s) of
              Inl e \<Rightarrow> Inl e
            | Inr x' \<Rightarrow> stepT_loop c (int n - 1) (s\<lparr>arg_x := x'\<rparr>)))"
    by (subst stepT_loop.simps) simp
  show ?case
    using new old by simp
qed

text \<open>
  C6. \<open>addOperator(op)\<close> appends \<open>op\<close> at the end: the size grows by exactly one, the
  operators stored before and their order stay, and from then on \<open>step\<close> calls the new
  element last and \<open>stepT\<close> calls it first.
\<close>

theorem addOperator_appends:
  "m_sz (addOperator c op) = m_sz c + 1 \<and>
   m_ops (addOperator c op) = m_ops c @ [op] \<and>
   length (m_ops (addOperator c op)) = length (m_ops c) + 1 \<and>
   (size_invariant c \<longrightarrow>
      step (addOperator c (Some q)) s =
        (case step c s of Inl e \<Rightarrow> Inl e | Inr s' \<Rightarrow> calls [op_step q] s') \<and>
      stepT (addOperator c (Some q)) s =
        (case calls [op_stepT q] s of Inl e \<Rightarrow> Inl e | Inr s' \<Rightarrow> stepT c s'))"
proof -
  have fields: "m_sz (addOperator c op) = m_sz c + 1 \<and>
      m_ops (addOperator c op) = m_ops c @ [op] \<and>
      length (m_ops (addOperator c op)) = length (m_ops c) + 1"
    by (simp add: addOperator_def)
  have "step (addOperator c (Some q)) s =
      (case step c s of Inl e \<Rightarrow> Inl e | Inr s' \<Rightarrow> calls [op_step q] s')"
    if inv: "size_invariant c"
    using step_loop_addOperator [OF inv, of 0 q s] by (simp add: step_def)
  moreover have "stepT (addOperator c (Some q)) s =
      (case calls [op_stepT q] s of Inl e \<Rightarrow> Inl e | Inr s' \<Rightarrow> stepT c s')"
    if inv: "size_invariant c"
  proof -
    have sz: "m_sz c = int (length (m_ops c))"
      using inv by (simp add: size_invariant_def)
    have "stepT_loop (addOperator c (Some q)) (int (length (m_ops c)) - 1) s' =
        stepT_loop c (int (length (m_ops c)) - 1) s'" for s'
      by (rule stepT_loop_addOperator) simp
    then have rest: "stepT_loop (addOperator c (Some q)) (int (length (m_ops c)) - 1) s' =
        stepT c s'" for s'
      by (simp add: stepT_def sz)
    have "stepT_loop (addOperator c (Some q)) (int (length (m_ops c))) s =
        (case calls [op_stepT q] s of Inl e \<Rightarrow> Inl e | Inr s' \<Rightarrow> stepT c s')"
      by (subst stepT_loop.simps) (simp add: m_ops_at_addOperator_new rest split: sum.splits)
    moreover have "stepT (addOperator c (Some q)) s =
        stepT_loop (addOperator c (Some q)) (int (length (m_ops c))) s"
      using fields sz by (simp add: stepT_def addOperator_def)
    ultimately show ?thesis by simp
  qed
  ultimately show ?thesis using fields by simp
qed


theorem addOperator_appends_witness:
  "size_invariant (gsCompositionOfPreconditionersOp_vec [Some (example_op 2 1 2 1)]) \<and>
   step (addOperator (gsCompositionOfPreconditionersOp_vec [Some (example_op 2 1 2 1)])
           (Some (example_op 3 1 3 1)))
        \<lparr>arg_f = 1, arg_x = 0\<rparr>
     = Inr \<lparr>arg_f = 1, arg_x = 4\<rparr> \<and>
   stepT (addOperator (gsCompositionOfPreconditionersOp_vec [Some (example_op 2 1 2 1)])
           (Some (example_op 3 1 3 1)))
        \<lparr>arg_f = 1, arg_x = 0\<rparr>
     = Inr \<lparr>arg_f = 1, arg_x = 3\<rparr>"
proof -
  let ?c = "gsCompositionOfPreconditionersOp_vec [Some (example_op 2 1 2 1)]"
  let ?q = "example_op 3 1 3 1"
  let ?s = "\<lparr>arg_f = 1, arg_x = 0\<rparr> :: int step_args"
  have inv: "size_invariant ?c"
    by (simp add: size_invariant_def gsCompositionOfPreconditionersOp_vec_def)
  have ops: "m_ops ?c = map Some [example_op 2 1 2 1]"
    by (simp add: gsCompositionOfPreconditionersOp_vec_def)
  have a: "step ?c ?s = Inr \<lparr>arg_f = 1, arg_x = 1\<rparr>"
    unfolding step_calls [OF inv ops] by (simp add: example_op_def)
  have b: "stepT ?c \<lparr>arg_f = 1, arg_x = 1\<rparr> = Inr \<lparr>arg_f = 1, arg_x = 3\<rparr>"
    unfolding stepT_calls [OF inv ops] by (simp add: example_op_def)
  have q: "calls [op_stepT ?q] ?s = Inr \<lparr>arg_f = 1, arg_x = 1\<rparr>"
    by (simp add: example_op_def)
  have st: "step (addOperator ?c (Some ?q)) ?s =
      (case step ?c ?s of Inl e \<Rightarrow> Inl e | Inr s' \<Rightarrow> calls [op_step ?q] s')"
    and stT: "stepT (addOperator ?c (Some ?q)) ?s =
      (case calls [op_stepT ?q] ?s of Inl e \<Rightarrow> Inl e | Inr s' \<Rightarrow> stepT ?c s')"
    using inv addOperator_appends [of ?c "Some ?q" ?q ?s] by blast+
  have "step (addOperator ?c (Some ?q)) ?s = Inr \<lparr>arg_f = 1, arg_x = 4\<rparr>"
    unfolding st a by (simp add: example_op_def)
  moreover have "stepT (addOperator ?c (Some ?q)) ?s = Inr \<lparr>arg_f = 1, arg_x = 3\<rparr>"
    unfolding stT q by (simp add: b)
  ultimately show ?thesis
    using inv by simp
qed

subsection \<open>The size invariant\<close>

lemma size_invariant_addOperator:
  "size_invariant c \<Longrightarrow> size_invariant (addOperator c op)"
  by (simp add: size_invariant_def addOperator_def)

text \<open>
  C7. \<open>m_sz == m_ops.size()\<close> holds after each of the four constructors (empty, from a
  vector, from two and from three operators) and \<open>addOperator\<close> preserves it; \<open>step\<close>,
  \<open>stepT\<close>, \<open>rows\<close>, \<open>cols\<close> and \<open>underlyingOp\<close> change neither field.
\<close>

theorem size_invariant_maintained:
  "size_invariant (gsCompositionOfPreconditionersOp_0 ::
     ('v, 'a) gsCompositionOfPreconditionersOp) \<and>
   size_invariant (gsCompositionOfPreconditionersOp_vec (ops :: ('v, 'a) BasePtr list)) \<and>
   size_invariant (gsCompositionOfPreconditionersOp_2 (op0 :: ('v, 'a) BasePtr) op1) \<and>
   size_invariant (gsCompositionOfPreconditionersOp_3 (op0 :: ('v, 'a) BasePtr) op1 op2) \<and>
   (size_invariant (c :: ('v, 'a) gsCompositionOfPreconditionersOp) \<longrightarrow>
      size_invariant (addOperator c op) \<and> size_invariant (object_after call c)) \<and>
   object_after (Call_step s) c = c \<and>
   object_after (Call_stepT s) c = c \<and>
   object_after Call_rows c = c \<and>
   object_after Call_cols c = c \<and>
   object_after Call_underlyingOp c = c"
proof -
  have "size_invariant (object_after call c)" if "size_invariant c"
    using that by (cases call) (simp_all add: size_invariant_addOperator)
  then show ?thesis
    by (simp add: size_invariant_addOperator)
      (simp add: size_invariant_def gsCompositionOfPreconditionersOp_0_def
         gsCompositionOfPreconditionersOp_vec_def ctor_2_fields ctor_3_fields)
qed

theorem size_invariant_maintained_witness:
  "size_invariant (gsCompositionOfPreconditionersOp_2
      (Some (example_op 2 1 2 1)) (Some (example_op 3 1 3 1))) \<and>
   size_invariant (addOperator
      (gsCompositionOfPreconditionersOp_2
         (Some (example_op 2 1 2 1)) (Some (example_op 3 1 3 1)))
      (Some (example_op 1 0 1 0))) \<and>
   m_sz (addOperator
      (gsCompositionOfPreconditionersOp_2
         (Some (example_op 2 1 2 1)) (Some (example_op 3 1 3 1)))
      (Some (example_op 1 0 1 0))) = 3"
  using size_invariant_maintained
    [of "[]" "Some (example_op 2 1 2 1)" "Some (example_op 3 1 3 1)" None
        "gsCompositionOfPreconditionersOp_2
           (Some (example_op 2 1 2 1)) (Some (example_op 3 1 3 1))"
        "Some (example_op 1 0 1 0)" Call_rows]
  by (simp add: addOperator_def ctor_2_fields)

subsection \<open>The right-hand side is written only through x\<close>

text \<open>
  On two distinct objects the calls on the caller's objects are the calls on the values:
  the same failure, or the same new \<open>x\<close> and every other matrix as it was.
\<close>

lemma step_ref_loop_distinct:
  "f \<noteq> x \<Longrightarrow>
   (case step_ref_loop c i f x h of Returned h' \<Rightarrow> Inr h' | Failed e h' \<Rightarrow> Inl e) =
   (case step_loop c i \<lparr>arg_f = h f, arg_x = h x\<rparr> of
      Inl e \<Rightarrow> Inl e
    | Inr s' \<Rightarrow> Inr (h(x := arg_x s')))"
proof (induction c i f x h rule: step_ref_loop.induct)
  case (1 c i f x h)
  show ?case
  proof (cases "i < m_sz c")
    case False
    then show ?thesis
      by (subst step_ref_loop.simps, subst step_loop.simps) simp
  next
    case True
    show ?thesis
    proof (cases "m_ops_at c i")
      case (Inl e)
      then show ?thesis
        using True by (subst step_ref_loop.simps, subst step_loop.simps) simp
    next
      case (Inr p)
      show ?thesis
      proof (cases "op_step p (h f) (h x)")
        case (Inl e)
        then show ?thesis
          using True Inr by (subst step_ref_loop.simps, subst step_loop.simps) simp
      next
        case x': (Inr x')
        have "(case step_ref_loop c (i + 1) f x (h(x := x')) of
                 Returned h' \<Rightarrow> Inr h' | Failed e h' \<Rightarrow> Inl e) =
              (case step_loop c (i + 1) \<lparr>arg_f = (h(x := x')) f, arg_x = (h(x := x')) x\<rparr> of
                 Inl e \<Rightarrow> Inl e
               | Inr s' \<Rightarrow> Inr ((h(x := x'))(x := arg_x s')))"
          using True Inr x' "1.prems" by (rule "1.IH")
        then show ?thesis
          using True Inr x' "1.prems"
          by (subst step_ref_loop.simps, subst step_loop.simps) (simp split: sum.splits)
      qed
    qed
  qed
qed

lemma stepT_ref_loop_distinct:
  "f \<noteq> x \<Longrightarrow>
   (case stepT_ref_loop c i f x h of Returned h' \<Rightarrow> Inr h' | Failed e h' \<Rightarrow> Inl e) =
   (case stepT_loop c i \<lparr>arg_f = h f, arg_x = h x\<rparr> of
      Inl e \<Rightarrow> Inl e
    | Inr s' \<Rightarrow> Inr (h(x := arg_x s')))"
proof (induction c i f x h rule: stepT_ref_loop.induct)
  case (1 c i f x h)
  show ?case
  proof (cases "i \<ge> 0")
    case False
    then show ?thesis
      by (subst stepT_ref_loop.simps, subst stepT_loop.simps) simp
  next
    case True
    show ?thesis
    proof (cases "m_ops_at c i")
      case (Inl e)
      then show ?thesis
        using True by (subst stepT_ref_loop.simps, subst stepT_loop.simps) simp
    next
      case (Inr p)
      show ?thesis
      proof (cases "op_stepT p (h f) (h x)")
        case (Inl e)
        then show ?thesis
          using True Inr by (subst stepT_ref_loop.simps, subst stepT_loop.simps) simp
      next
        case x': (Inr x')
        have "(case stepT_ref_loop c (i - 1) f x (h(x := x')) of
                 Returned h' \<Rightarrow> Inr h' | Failed e h' \<Rightarrow> Inl e) =
              (case stepT_loop c (i - 1) \<lparr>arg_f = (h(x := x')) f, arg_x = (h(x := x')) x\<rparr> of
                 Inl e \<Rightarrow> Inl e
               | Inr s' \<Rightarrow> Inr ((h(x := x'))(x := arg_x s')))"
          using True Inr x' "1.prems" by (rule "1.IH")
        then show ?thesis
          using True Inr x' "1.prems"
          by (subst stepT_ref_loop.simps, subst stepT_loop.simps) (simp split: sum.splits)
      qed
    qed
  qed
qed

lemma step_ref_distinct:
  "f \<noteq> x \<Longrightarrow>
   (case step_ref c f x h of Returned h' \<Rightarrow> Inr h' | Failed e h' \<Rightarrow> Inl e) =
   (case step c \<lparr>arg_f = h f, arg_x = h x\<rparr> of
      Inl e \<Rightarrow> Inl e
    | Inr s' \<Rightarrow> Inr (h(x := arg_x s')))"
  unfolding step_ref_def step_def by (rule step_ref_loop_distinct)

lemma stepT_ref_distinct:
  "f \<noteq> x \<Longrightarrow>
   (case stepT_ref c f x h of Returned h' \<Rightarrow> Inr h' | Failed e h' \<Rightarrow> Inl e) =
   (case stepT c \<lparr>arg_f = h f, arg_x = h x\<rparr> of
      Inl e \<Rightarrow> Inl e
    | Inr s' \<Rightarrow> Inr (h(x := arg_x s')))"
  unfolding stepT_ref_def stepT_def by (rule stepT_ref_loop_distinct)

text \<open>Whatever \<open>f\<close> and \<open>x\<close> are, no matrix other than the one at \<open>x\<close> is written.\<close>

lemma step_ref_loop_writes_x_only:
  "a \<noteq> x \<Longrightarrow> objects_after (step_ref_loop c i f x h) a = h a"
proof (induction c i f x h rule: step_ref_loop.induct)
  case (1 c i f x h)
  show ?case
  proof (cases "i < m_sz c")
    case False
    then show ?thesis by (subst step_ref_loop.simps) simp
  next
    case True
    show ?thesis
    proof (cases "m_ops_at c i")
      case (Inl e)
      then show ?thesis using True by (subst step_ref_loop.simps) simp
    next
      case (Inr p)
      show ?thesis
      proof (cases "op_step p (h f) (h x)")
        case (Inl e)
        then show ?thesis using True Inr by (subst step_ref_loop.simps) simp
      next
        case x': (Inr x')
        have "objects_after (step_ref_loop c (i + 1) f x (h(x := x'))) a = (h(x := x')) a"
          using True Inr x' "1.prems" by (rule "1.IH")
        then show ?thesis
          using True Inr x' "1.prems" by (subst step_ref_loop.simps) simp
      qed
    qed
  qed
qed

lemma stepT_ref_loop_writes_x_only:
  "a \<noteq> x \<Longrightarrow> objects_after (stepT_ref_loop c i f x h) a = h a"
proof (induction c i f x h rule: stepT_ref_loop.induct)
  case (1 c i f x h)
  show ?case
  proof (cases "i \<ge> 0")
    case False
    then show ?thesis by (subst stepT_ref_loop.simps) simp
  next
    case True
    show ?thesis
    proof (cases "m_ops_at c i")
      case (Inl e)
      then show ?thesis using True by (subst stepT_ref_loop.simps) simp
    next
      case (Inr p)
      show ?thesis
      proof (cases "op_stepT p (h f) (h x)")
        case (Inl e)
        then show ?thesis using True Inr by (subst stepT_ref_loop.simps) simp
      next
        case x': (Inr x')
        have "objects_after (stepT_ref_loop c (i - 1) f x (h(x := x'))) a = (h(x := x')) a"
          using True Inr x' "1.prems" by (rule "1.IH")
        then show ?thesis
          using True Inr x' "1.prems" by (subst stepT_ref_loop.simps) simp
      qed
    qed
  qed
qed

text \<open>
  Stated for all vectors \<open>f\<close> and \<open>x\<close>, the property fails where both name one
  object: in \<open>c.step(v, v)\<close> every constituent writes \<open>x\<close>, which is \<open>f\<close>. With the
  constituents \<open>x := 2 * x + f\<close> and \<open>x := 3 * x + f\<close> and \<open>v = 1\<close>, the first call
  leaves \<open>v = 3\<close> and the second \<open>v = 12\<close>; \<open>stepT\<close> does the same in the other
  order.
\<close>

theorem step_aliased_f_counterexample:
  "returned (step_ref (gsCompositionOfPreconditionersOp_2
               (Some (example_op 2 1 3 1)) (Some (example_op 3 1 2 1))) 0 0 example_objects) \<and>
   objects_after (step_ref (gsCompositionOfPreconditionersOp_2
               (Some (example_op 2 1 3 1)) (Some (example_op 3 1 2 1))) 0 0 example_objects) 0
     = 12 \<and>
   returned (stepT_ref (gsCompositionOfPreconditionersOp_2
               (Some (example_op 2 1 3 1)) (Some (example_op 3 1 2 1))) 0 0 example_objects) \<and>
   objects_after (stepT_ref (gsCompositionOfPreconditionersOp_2
               (Some (example_op 2 1 3 1)) (Some (example_op 3 1 2 1))) 0 0 example_objects) 0
     = 12 \<and>
   example_objects 0 = 1"
  by (simp add: step_ref_def stepT_ref_def step_ref_loop.simps stepT_ref_loop.simps
        ctor_2_fields m_ops_at_def example_op_def example_objects_def)

text \<open>
  C8, amended. For every composition and all vectors \<open>f\<close> and \<open>x\<close> that are distinct
  objects, the calls \<open>step(f, x)\<close> and \<open>stepT(f, x)\<close> leave \<open>f\<close> unchanged, whether
  they return or a constituent fails; of the caller's matrices only \<open>x\<close> is written.
\<close>

theorem step_and_stepT_leave_distinct_f:
  assumes "f \<noteq> x"
  shows "objects_after (step_ref c f x h) f = h f \<and>
         objects_after (stepT_ref c f x h) f = h f \<and>
         (\<forall>a. a \<noteq> x \<longrightarrow>
            objects_after (step_ref c f x h) a = h a \<and>
            objects_after (stepT_ref c f x h) a = h a)"
  using assms
  by (simp add: step_ref_def stepT_ref_def step_ref_loop_writes_x_only
        stepT_ref_loop_writes_x_only)

theorem step_and_stepT_leave_distinct_f_witness:
  "(0::nat) \<noteq> 1 \<and>
   objects_after (step_ref (gsCompositionOfPreconditionersOp_2
       (Some (example_op 2 1 3 1)) (Some (example_op 3 1 2 1))) 0 1 example_objects) 0
     = example_objects 0 \<and>
   objects_after (stepT_ref (gsCompositionOfPreconditionersOp_2
       (Some (example_op 2 1 3 1)) (Some (example_op 3 1 2 1))) 0 1 example_objects) 0
     = example_objects 0 \<and>
   objects_after (step_ref (gsCompositionOfPreconditionersOp_2
       (Some (example_op 2 1 3 1)) (Some (example_op 3 1 2 1))) 0 1 example_objects) 1
     = 4"
proof -
  have d: "(0::nat) \<noteq> 1" by simp
  have "objects_after (step_ref (gsCompositionOfPreconditionersOp_2
       (Some (example_op 2 1 3 1)) (Some (example_op 3 1 2 1))) 0 1 example_objects) 1 = 4"
    by (simp add: step_ref_def step_ref_loop.simps ctor_2_fields m_ops_at_def example_op_def
          example_objects_def)
  then show ?thesis
    using d step_and_stepT_leave_distinct_f
      [OF d, of "gsCompositionOfPreconditionersOp_2
         (Some (example_op 2 1 3 1)) (Some (example_op 3 1 2 1))" example_objects]
    by simp
qed

subsection \<open>The empty composition\<close>

text \<open>
  C10. On the empty composition, \<open>step(f, x)\<close> and \<open>stepT(f, x)\<close> return without a
  failure and leave \<open>x\<close> and \<open>f\<close> as they were, whereas \<open>rows()\<close>, \<open>cols()\<close> and
  \<open>underlyingOp()\<close> fail on it.
\<close>

theorem empty_composition_steps_do_nothing:
  assumes "size_invariant c" and "m_ops c = []"
  shows "step c s = Inr s \<and> stepT c s = Inr s \<and>
         isl (rows c) \<and> isl (cols c) \<and> isl (underlyingOp c)"
proof -
  have z: "m_sz c = 0"
    using assms by (simp add: size_invariant_def)
  have "step c s = Inr s"
    unfolding step_def by (subst step_loop.simps) (simp add: z)
  moreover have "stepT c s = Inr s"
    unfolding stepT_def by (subst stepT_loop.simps) (simp add: z)
  moreover have "isl (rows c) \<and> isl (cols c) \<and> isl (underlyingOp c)"
    by (simp add: rows_def cols_def underlyingOp_def GISMO_ASSERT_def z)
  ultimately show ?thesis by simp
qed

theorem empty_composition_steps_do_nothing_witness:
  "step (gsCompositionOfPreconditionersOp_0 :: (int, int) gsCompositionOfPreconditionersOp)
        \<lparr>arg_f = 3, arg_x = 8\<rparr> = Inr \<lparr>arg_f = 3, arg_x = 8\<rparr> \<and>
   stepT (gsCompositionOfPreconditionersOp_0 :: (int, int) gsCompositionOfPreconditionersOp)
        \<lparr>arg_f = 3, arg_x = 8\<rparr> = Inr \<lparr>arg_f = 3, arg_x = 8\<rparr>"
  using empty_composition_steps_do_nothing
      [of "gsCompositionOfPreconditionersOp_0 :: (int, int) gsCompositionOfPreconditionersOp"
          "\<lparr>arg_f = 3, arg_x = 8\<rparr>"]
  by (simp add: size_invariant_def gsCompositionOfPreconditionersOp_0_def)

section \<open>Properties of the single-patch construction\<close>

text \<open>
  C9. Constructing \<open>gsSinglePatchPreconditioners\<close> from a basis, boundary conditions
  and a Dirichlet strategy (elimination when it is omitted) stores the default option
  set of the generic assembler with its entry \<open>DirichletStrategy\<close> set to the given
  value; every other entry keeps its default.
\<close>

theorem strategy_constructor_options:
  "m_options (gsSinglePatchPreconditioners_strategy defaultOptions index_t basis bc (Some d))
     = defaultOptions(''DirichletStrategy'' \<mapsto> IntEntry (index_t d)) \<and>
   m_options (gsSinglePatchPreconditioners_strategy defaultOptions index_t basis bc (Some d))
     ''DirichletStrategy'' = Some (IntEntry (index_t d)) \<and>
   (\<forall>label. label \<noteq> ''DirichletStrategy'' \<longrightarrow>
      m_options (gsSinglePatchPreconditioners_strategy defaultOptions index_t basis bc (Some d))
        label = defaultOptions label) \<and>
   gsSinglePatchPreconditioners_strategy defaultOptions index_t basis bc None
     = gsSinglePatchPreconditioners_strategy defaultOptions index_t basis bc (Some elimination)"
  by (simp add: gsSinglePatchPreconditioners_strategy_def setInt_def)

theorem strategy_constructor_options_witness:
  "m_options (gsSinglePatchPreconditioners_strategy example_defaultOptions example_index
                () () (Some nitsche)) ''DirichletStrategy'' = Some (IntEntry 12) \<and>
   m_options (gsSinglePatchPreconditioners_strategy example_defaultOptions example_index
                () () (Some nitsche)) ''quB'' = Some (IntEntry 1) \<and>
   m_options (gsSinglePatchPreconditioners_strategy example_defaultOptions example_index
                () () None) ''DirichletStrategy'' = Some (IntEntry 11)"
  using strategy_constructor_options
      [of example_defaultOptions example_index "()" "()" nitsche]
    strategy_constructor_options
      [of example_defaultOptions example_index "()" "()" elimination]
  by (simp add: example_defaultOptions_def)

end
